theory Spec2Isabelle
  imports Main
begin

section \<open>Python values, errors and the outside world\<close>

text \<open>
  An uncaught Python exception is a value of \<open>error\<close>; a computation that may raise
  returns \<open>error + 'a\<close>, with \<open>Inl\<close> the exception.
\<close>

datatype error = TypeError | KeyError | ValueError | FileNotFoundError | UnicodeDecodeError

text \<open>
  A Python \<open>dict\<close> keeps its keys in insertion order, so it is an association list with
  distinct keys. \<open>d[k]\<close> raises \<open>KeyError\<close> on a missing key; \<open>d[k] = v\<close> overwrites the
  value of a present key in place and appends a new key at the end.
\<close>

type_synonym ('k, 'v) dict = "('k \<times> 'v) list"

definition dict_contains :: "('k, 'v) dict \<Rightarrow> 'k \<Rightarrow> bool" where
  "dict_contains d k = (map_of d k \<noteq> None)"

definition dict_get :: "('k, 'v) dict \<Rightarrow> 'k \<Rightarrow> error + 'v" where
  "dict_get d k = (case map_of d k of None \<Rightarrow> Inl KeyError | Some v \<Rightarrow> Inr v)"

definition dict_set :: "('k, 'v) dict \<Rightarrow> 'k \<Rightarrow> 'v \<Rightarrow> ('k, 'v) dict" where
  "dict_set d k v =
     (if dict_contains d k then map (\<lambda>(k', v'). if k' = k then (k', v) else (k', v')) d
      else d @ [(k, v)])"

section \<open>Tables\<close>

text \<open>
  A row of the clean interaction table (\<open>user-item-clean.csv\<close>): the columns
  \<open>article_id\<close>, \<open>title\<close> and \<open>user_id\<close>. The data frame is the list of its rows, in
  row order.
\<close>

record interaction =
  article_id :: int
  title :: string
  user_id :: int

type_synonym interactions = "interaction list"

text \<open>
  A labelled integer frame: the row labels (\<open>index\<close>), the column labels and the cells,
  one list per row. It stands for frames with unique labels, as a pivot produces them.
\<close>

record matrix =
  row_index :: "int list"
  columns :: "int list"
  cells :: "int list list"

text \<open>
  The files the two programs read and write, by content: what \<open>read_csv\<close> or
  \<open>pickle.load\<close> would give back. The raw interaction file has a cell for the article id
  (\<open>None\<close> a missing value, otherwise the integer that \<open>astype(int)\<close> gives) and for
  the email (\<open>None\<close> a null); the matrix file is written without its row labels
  (\<open>index=False\<close>).
\<close>

record raw_interaction =
  raw_article_id :: "int option"
  raw_title :: string
  raw_email :: "string option"

record article =
  art_id :: "int option"
  art_fields :: "string option list"

datatype file_content =
    Raw_interactions "raw_interaction list"
  | Raw_articles "article list"
  | Clean_interactions "interaction list"
  | Clean_articles "article list"
  | Matrix_csv "int list" "int list list"
  | Pickle "(string, int) dict"

text \<open>
  What \<open>print\<close> writes: one entry per call, either a literal text or a format string
  with the values given to \<open>format\<close>. How a value is rendered and how the line ends
  (\<open>end=''\<close>) are not modelled.
\<close>

datatype pyval = Int_val int | Str_val string | Ints_val "int list" | Strs_val "string list"

datatype line = Text string | Format string "pyval list"

text \<open>
  The world of a run: the files by path (paths compared as written), the directories
  that exist, and the output so far. An uncaught exception leaves the world as it is at
  the raise.
\<close>

record world =
  files :: "string \<rightharpoonup> file_content"
  dirs :: "string set"
  stdout :: "line list"

definition print :: "line \<Rightarrow> world \<Rightarrow> world" where
  "print l w = w\<lparr>stdout := stdout w @ [l]\<rparr>"

text \<open>
  \<open>pd.read_csv(path)\<close>: the frame held by the file; \<open>FileNotFoundError\<close> when there is
  none, and a pickle is not text that parses.
\<close>

definition read_csv :: "string \<Rightarrow> world \<Rightarrow> error + file_content" where
  "read_csv path w =
     (case files w path of
        None \<Rightarrow> Inl FileNotFoundError
      | Some (Pickle d) \<Rightarrow> Inl UnicodeDecodeError
      | Some frame \<Rightarrow> Inr frame)"

section \<open>clean_data.py\<close>

subsection \<open>email_mapper\<close>

text \<open>
  The loop of \<open>email_mapper\<close> over the email column, on the state
  \<open>(coded_dict, cter, email_encoded)\<close>.
\<close>

fun email_loop ::
  "string list \<Rightarrow> (string, int) dict \<times> int \<times> int list
     \<Rightarrow> error + ((string, int) dict \<times> int \<times> int list)" where
  "email_loop [] (coded_dict, cter, email_encoded) = Inr (coded_dict, cter, email_encoded)"
| "email_loop (val # vals) (coded_dict, cter, email_encoded) =
     (let (coded_dict, cter) =
            (if \<not> dict_contains coded_dict val
             then (dict_set coded_dict val cter, cter + 1)
             else (coded_dict, cter))
      in case dict_get coded_dict val of
           Inl e \<Rightarrow> Inl e
         | Inr code \<Rightarrow> email_loop vals (coded_dict, cter, email_encoded @ [code]))"

text \<open>
  \<open>email_mapper\<close> starts from an empty dictionary and the counter 1, runs the loop, and
  writes the dictionary to \<open>./email_encoding/encodings.pkl\<close> (\<open>open(..., 'wb')\<close> raises
  when the directory does not exist). It never reads that file.
\<close>

definition encodings_dir :: string where
  "encodings_dir = ''./email_encoding''"

definition encodings_pkl :: string where
  "encodings_pkl = ''./email_encoding/encodings.pkl''"

definition email_mapper :: "string list \<Rightarrow> world \<Rightarrow> world \<times> (error + int list)" where
  "email_mapper emails w =
     (case email_loop emails ([], 1, []) of
        Inl e \<Rightarrow> (w, Inl e)
      | Inr (coded_dict, cter, email_encoded) \<Rightarrow>
          if encodings_dir \<in> dirs w
          then (w\<lparr>files := (files w)(encodings_pkl \<mapsto> Pickle coded_dict)\<rparr>, Inr email_encoded)
          else (w, Inl FileNotFoundError))"

text \<open>
  Auxiliary notions for the analysis of the loop: the keys a dictionary holds after more
  values have been seen, in insertion order; the dictionary that numbers a key list from
  a given integer; and the position of a key in a key list, counted from 1.
\<close>

fun seen_after :: "'a list \<Rightarrow> 'a list \<Rightarrow> 'a list" where
  "seen_after ks [] = ks"
| "seen_after ks (v # vs) = seen_after (if v \<in> set ks then ks else ks @ [v]) vs"

fun number_from :: "int \<Rightarrow> 'a list \<Rightarrow> ('a \<times> int) list" where
  "number_from a [] = []"
| "number_from a (k # ks) = (k, a) # number_from (a + 1) ks"

definition rank_in :: "'a list \<Rightarrow> 'a \<Rightarrow> int" where
  "rank_in ks v = int (length (takeWhile (\<lambda>k. k \<noteq> v) ks)) + 1"

subsection \<open>create_user_item_matrix\<close>

text \<open>
  \<open>groupby\<close> keys and pivot labels: the distinct values, ascending.
\<close>

definition group_keys :: "int list \<Rightarrow> int list" where
  "group_keys xs = sort (remdups xs)"

text \<open>
  \<open>pd.pivot_table(df_copy, values='view_count', index=['user_id'],
  columns=['article_id'], aggfunc=np.sum)\<close>, on rows paired with their \<open>view_count\<close>:
  a cell holds the sum of the view counts of the rows of that user and article, and is
  missing (\<open>NaN\<close>, here \<open>None\<close>) when there is no such row.
\<close>

record pivot =
  pv_index :: "int list"
  pv_columns :: "int list"
  pv_cells :: "int option list list"

definition pivot_cell :: "(interaction \<times> int) list \<Rightarrow> int \<Rightarrow> int \<Rightarrow> int option" where
  "pivot_cell rows u i =
     (let vs = map snd (filter (\<lambda>(r, v). user_id r = u \<and> article_id r = i) rows)
      in if vs = [] then None else Some (sum_list vs))"

definition pivot_table_sum :: "(interaction \<times> int) list \<Rightarrow> pivot" where
  "pivot_table_sum rows =
     (let us = group_keys (map (\<lambda>(r, v). user_id r) rows);
          is = group_keys (map (\<lambda>(r, v). article_id r) rows)
      in \<lparr>pv_index = us, pv_columns = is,
          pv_cells = map (\<lambda>u. map (\<lambda>i. pivot_cell rows u i) is) us\<rparr>)"

text \<open>
  \<open>(pivot >= 1) * 1\<close>: a comparison with \<open>NaN\<close> is false, and a boolean times 1 is 0 or 1.
\<close>

definition ge_one :: "int option \<Rightarrow> bool" where
  "ge_one c = (case c of None \<Rightarrow> False | Some n \<Rightarrow> n \<ge> 1)"

definition times_one :: "bool \<Rightarrow> int" where
  "times_one b = (if b then 1 else 0)"

definition create_user_item_matrix :: "interactions \<Rightarrow> matrix" where
  "create_user_item_matrix df =
     (let df_copy = map (\<lambda>r. (r, 1)) df;
          pivot = pivot_table_sum df_copy
      in \<lparr>row_index = pv_index pivot, columns = pv_columns pivot,
          cells = map (map (\<lambda>c. times_one (ge_one c))) (pv_cells pivot)\<rparr>)"

text \<open>
  Label lookups in a frame: \<open>user_item.loc[u, :]\<close> is the row labelled \<open>u\<close> and
  \<open>user_item.loc[u, i]\<close> its cell in the column labelled \<open>i\<close>; a missing label raises
  \<open>KeyError\<close>.
\<close>

definition loc_row :: "matrix \<Rightarrow> int \<Rightarrow> error + int list" where
  "loc_row m u =
     (case map_of (zip (row_index m) (cells m)) u of
        None \<Rightarrow> Inl KeyError
      | Some row \<Rightarrow> Inr row)"

definition loc_cell :: "matrix \<Rightarrow> int \<Rightarrow> int \<Rightarrow> error + int" where
  "loc_cell m u i =
     (case loc_row m u of
        Inl e \<Rightarrow> Inl e
      | Inr row \<Rightarrow> (case map_of (zip (columns m) row) i of
                     None \<Rightarrow> Inl KeyError
                   | Some v \<Rightarrow> Inr v))"

text \<open>
  A small table: user 1 viewed article 10 twice, user 2 viewed article 20 once.
\<close>

definition df4 :: interactions where
  "df4 = [\<lparr>article_id = 10, title = ''t10'', user_id = 1\<rparr>,
          \<lparr>article_id = 10, title = ''t10'', user_id = 1\<rparr>,
          \<lparr>article_id = 20, title = ''t20'', user_id = 2\<rparr>]"

text \<open>
  A world with the directory of the pickle and no file.
\<close>

definition w_empty :: world where
  "w_empty = \<lparr>files = Map.empty, dirs = {encodings_dir}, stdout = []\<rparr>"

section \<open>recommender.py\<close>

subsection \<open>Frame operations\<close>

text \<open>
  \<open>Series.unique()\<close> and \<open>drop_duplicates()\<close> keep the first occurrence of each value, in
  order of appearance.
\<close>

definition unique :: "'a list \<Rightarrow> 'a list" where
  "unique xs = rev (remdups (rev xs))"

text \<open>
  \<open>df.groupby([key])[col].count()\<close>: one row per distinct key, ascending, with the number
  of rows of that key (no column of the clean table holds a null).
\<close>

definition groupby_count :: "('r \<Rightarrow> int) \<Rightarrow> 'r list \<Rightarrow> (int \<times> int) list" where
  "groupby_count key df =
     map (\<lambda>k. (k, int (length (filter (\<lambda>r. key r = k) df)))) (group_keys (map key df))"

text \<open>
  \<open>sort_values\<close>, as a stable insertion sort: \<open>precedes x y\<close> says that \<open>x\<close> may stand
  before \<open>y\<close> (for a descending sort, that the key of \<open>x\<close> is not below the key of \<open>y\<close>).
  Rows with equal keys keep their order; pandas leaves that order to the sorting
  algorithm, and nothing proved below depends on it.
\<close>

fun insert_sorted :: "('a \<Rightarrow> 'a \<Rightarrow> bool) \<Rightarrow> 'a \<Rightarrow> 'a list \<Rightarrow> 'a list" where
  "insert_sorted precedes x [] = [x]"
| "insert_sorted precedes x (y # ys) =
     (if precedes x y then x # y # ys else y # insert_sorted precedes x ys)"

definition sort_values :: "('a \<Rightarrow> 'a \<Rightarrow> bool) \<Rightarrow> 'a list \<Rightarrow> 'a list" where
  "sort_values precedes xs = foldr (insert_sorted precedes) xs []"

text \<open>
  The slice \<open>xs[:m]\<close>: the first \<open>m\<close> elements, and for a negative \<open>m\<close> all but the
  last \<open>-m\<close>.
\<close>

definition slice_to :: "int \<Rightarrow> 'a list \<Rightarrow> 'a list" where
  "slice_to m xs = (if m \<ge> 0 then take (nat m) xs else take (length xs - nat (- m)) xs)"

text \<open>
  \<open>s[labels]\<close> on a series with integer labels: for each label in turn, the values of
  the entries with that label; \<open>KeyError\<close> when a label is missing.
\<close>

definition series_getitem :: "(int \<times> 'v) list \<Rightarrow> int list \<Rightarrow> error + 'v list" where
  "series_getitem s labels =
     (if \<forall>l\<in>set labels. l \<in> fst ` set s
      then Inr (concat (map (\<lambda>l. map snd (filter (\<lambda>(k, v). k = l) s)) labels))
      else Inl KeyError)"

subsection \<open>get_article_names, get_top_articles, is_new_user\<close>

definition get_article_names :: "int list \<Rightarrow> interactions \<Rightarrow> string list" where
  "get_article_names article_ids df =
     (let article_title_series = map title (filter (\<lambda>r. article_id r \<in> set article_ids) df);
          article_names = unique article_title_series
      in article_names)"

definition get_top_articles :: "interactions \<Rightarrow> int \<Rightarrow> error + string list" where
  "get_top_articles df n =
     (let views_per_article =
            sort_values (\<lambda>a b. snd a \<ge> snd b) (groupby_count article_id df);
          top_n_views_per_article = slice_to n views_per_article;
          top_article_ids = map fst top_n_views_per_article;
          articles_df = unique (map (\<lambda>r. (article_id r, title r)) df)
      in series_getitem articles_df top_article_ids)"

text \<open>
  \<open>np.isin(user_id, df['user_id'])\<close> is true when the id occurs in the column.
\<close>

definition is_new_user :: "int \<Rightarrow> interactions \<Rightarrow> bool" where
  "is_new_user uid df = (let is_new = uid \<in> set (map user_id df) in is_new)"

subsection \<open>Calls\<close>

text \<open>
  A call binds the positional arguments to the parameters in order. None of the
  functions below has a default for any of the parameters that matter here, so a call
  with fewer arguments than parameters raises \<open>TypeError\<close> before the body runs. The
  \<open>_call\<close> form of a function takes \<open>Some\<close> for each argument the call site passes and
  \<open>None\<close> for each parameter it leaves out.
\<close>

definition get_article_names_call ::
  "int list option \<Rightarrow> interactions option \<Rightarrow> error + string list" where
  "get_article_names_call article_ids df =
     (case (article_ids, df) of
        (Some a, Some d) \<Rightarrow> Inr (get_article_names a d)
      | _ \<Rightarrow> Inl TypeError)"

subsection \<open>get_user_articles\<close>

text \<open>
  The body of \<open>get_user_articles\<close>, over what its call of \<open>get_article_names\<close> does
  (\<open>names_of\<close>): the row of the user, the labels of the columns that hold 1, and the
  names of these articles.
\<close>

definition get_user_articles_body ::
  "(int list \<Rightarrow> error + string list) \<Rightarrow> int \<Rightarrow> matrix \<Rightarrow> error + (int list \<times> string list)" where
  "get_user_articles_body names_of uid user_item =
     (case loc_row user_item uid of
        Inl e \<Rightarrow> Inl e
      | Inr user_views \<Rightarrow>
          let article_ids = map fst (filter (\<lambda>(c, v). v = 1) (zip (columns user_item) user_views))
          in case names_of article_ids of
               Inl e \<Rightarrow> Inl e
             | Inr article_names \<Rightarrow> Inr (article_ids, article_names))"

text \<open>
  As written, line 123 is \<open>get_article_names(article_ids)\<close>: one argument for two
  parameters.
\<close>

definition get_user_articles :: "int \<Rightarrow> matrix \<Rightarrow> error + (int list \<times> string list)" where
  "get_user_articles uid user_item =
     get_user_articles_body (\<lambda>article_ids. get_article_names_call (Some article_ids) None)
       uid user_item"

definition get_user_articles_call ::
  "int option \<Rightarrow> matrix option \<Rightarrow> error + (int list \<times> string list)" where
  "get_user_articles_call uid user_item =
     (case (uid, user_item) of
        (Some u, Some m) \<Rightarrow> get_user_articles u m
      | _ \<Rightarrow> Inl TypeError)"

subsection \<open>get_top_sorted_users\<close>

record neighbor =
  neighbor_id :: int
  similarity :: int
  num_interactions :: "int option"

text \<open>
  \<open>user_item.dot(row)\<close>: for each row of the frame, the sum of the products of its cells
  with the cells of \<open>row\<close>.
\<close>

definition dot :: "int list \<Rightarrow> int list \<Rightarrow> int" where
  "dot xs ys = sum_list (map (\<lambda>(x, y). x * y) (zip xs ys))"

text \<open>
  The order of \<open>sort_values(['similarity', 'num_interactions'], ascending=[False, False])\<close>:
  higher similarity first, then higher interaction count; a missing count (\<open>NaN\<close>, from
  the left merge when a user of the matrix has no row in the table) goes last.
\<close>

definition count_ge :: "int option \<Rightarrow> int option \<Rightarrow> bool" where
  "count_ge a b =
     (case b of None \<Rightarrow> True
      | Some m \<Rightarrow> (case a of None \<Rightarrow> False | Some n \<Rightarrow> n \<ge> m))"

definition neighbor_before :: "neighbor \<Rightarrow> neighbor \<Rightarrow> bool" where
  "neighbor_before a b =
     (similarity a > similarity b
      \<or> (similarity a = similarity b \<and> count_ge (num_interactions a) (num_interactions b)))"

text \<open>
  Line 153 takes the row labelled 1, \<open>user_item.loc[1, :]\<close>, whatever \<open>user_id\<close> is.
\<close>

definition get_top_sorted_users :: "int \<Rightarrow> interactions \<Rightarrow> matrix \<Rightarrow> error + neighbor list" where
  "get_top_sorted_users uid df user_item =
     (case loc_row user_item 1 of
        Inl e \<Rightarrow> Inl e
      | Inr row_1 \<Rightarrow>
          let user_similarity =
                zip (row_index user_item) (map (\<lambda>row. dot row row_1) (cells user_item));
              user_interactions = groupby_count user_id df;
              neighbors_df =
                map (\<lambda>(u, s). \<lparr>neighbor_id = u, similarity = s,
                                 num_interactions = map_of user_interactions u\<rparr>)
                  user_similarity;
              neighbors_df = sort_values neighbor_before neighbors_df;
              neighbors_df = filter (\<lambda>n. neighbor_id n \<noteq> uid) neighbors_df
          in Inr neighbors_df)"

definition get_top_sorted_users_call ::
  "int option \<Rightarrow> interactions option \<Rightarrow> matrix option \<Rightarrow> error + neighbor list" where
  "get_top_sorted_users_call uid df user_item =
     (case (uid, df, user_item) of
        (Some u, Some d, Some m) \<Rightarrow> get_top_sorted_users u d m
      | _ \<Rightarrow> Inl TypeError)"

subsection \<open>user_user_recs\<close>

text \<open>
  The loop of lines 225 to 245 over the neighbour ids, on the state
  \<open>(recs, rec_names)\<close>. \<open>articles_of\<close> and \<open>names_of\<close> are what the calls of
  \<open>get_user_articles\<close> and \<open>get_article_names\<close> in the loop do. A neighbour's articles
  are filtered against \<open>seen_article_ids\<close> only, then taken in the order of
  \<open>article_views\<close>.
\<close>

fun recs_loop ::
  "(int \<Rightarrow> error + (int list \<times> string list)) \<Rightarrow> (int list \<Rightarrow> error + string list)
     \<Rightarrow> int list \<Rightarrow> (int \<times> int) list \<Rightarrow> int
     \<Rightarrow> int list \<Rightarrow> int list \<times> string list \<Rightarrow> error + (int list \<times> string list)" where
  "recs_loop articles_of names_of seen_article_ids article_views m [] (recs, rec_names) =
     Inr (recs, rec_names)"
| "recs_loop articles_of names_of seen_article_ids article_views m (nid # rest)
     (recs, rec_names) =
     (case articles_of nid of
        Inl e \<Rightarrow> Inl e
      | Inr (article_ids, _) \<Rightarrow>
          let user_reco_ids = filter (\<lambda>item. item \<notin> set seen_article_ids) article_ids;
              recommended_articles = filter (\<lambda>(a, c). a \<in> set user_reco_ids) article_views;
              user_recos = map fst recommended_articles
          in case names_of user_recos of
               Inl e \<Rightarrow> Inl e
             | Inr user_reco_names \<Rightarrow>
                 let recs = recs @ user_recos;
                     rec_names = rec_names @ user_reco_names
                 in if int (length recs) \<ge> m then Inr (recs, rec_names)
                    else recs_loop articles_of names_of seen_article_ids article_views m rest
                           (recs, rec_names))"

text \<open>
  The body of \<open>user_user_recs\<close>, over what its three calls do.
\<close>

definition user_user_recs_body ::
  "(int \<Rightarrow> error + (int list \<times> string list)) \<Rightarrow> (int \<Rightarrow> error + neighbor list)
     \<Rightarrow> (int list \<Rightarrow> error + string list)
     \<Rightarrow> int \<Rightarrow> interactions \<Rightarrow> int \<Rightarrow> error + (int list \<times> string list)" where
  "user_user_recs_body articles_of neighbors_of names_of uid df m =
     (case articles_of uid of
        Inl e \<Rightarrow> Inl e
      | Inr (seen_article_ids, _) \<Rightarrow>
          let article_views = groupby_count article_id df;
              article_views = sort_values (\<lambda>a b. snd a \<ge> snd b) article_views
          in case neighbors_of uid of
               Inl e \<Rightarrow> Inl e
             | Inr neighbors_df \<Rightarrow>
                 (case recs_loop articles_of names_of seen_article_ids article_views m
                         (map neighbor_id neighbors_df) ([], []) of
                    Inl e \<Rightarrow> Inl e
                  | Inr (recs, rec_names) \<Rightarrow> Inr (slice_to m recs, slice_to m rec_names)))"

text \<open>
  As written, the three calls are \<open>get_user_articles(user_id)\<close> (lines 208 and 227),
  \<open>get_top_sorted_users(user_id)\<close> (line 218) and \<open>get_article_names(user_recos)\<close>
  (line 237): each passes its first argument only.
\<close>

definition user_user_recs :: "int \<Rightarrow> interactions \<Rightarrow> int \<Rightarrow> error + (int list \<times> string list)" where
  "user_user_recs uid df m =
     user_user_recs_body
       (\<lambda>u. get_user_articles_call (Some u) None)
       (\<lambda>u. get_top_sorted_users_call (Some u) None None)
       (\<lambda>ids. get_article_names_call (Some ids) None)
       uid df m"

text \<open>
  The same body with every call given the arguments its callee names: the matrix for
  \<open>user_item\<close> and the table for \<open>df\<close>.
\<close>

definition user_user_recs_with_args ::
  "matrix \<Rightarrow> int \<Rightarrow> interactions \<Rightarrow> int \<Rightarrow> error + (int list \<times> string list)" where
  "user_user_recs_with_args user_item uid df m =
     user_user_recs_body
       (\<lambda>u. get_user_articles_body (\<lambda>ids. get_article_names_call (Some ids) (Some df)) u user_item)
       (\<lambda>u. get_top_sorted_users_call (Some u) (Some df) (Some user_item))
       (\<lambda>ids. get_article_names_call (Some ids) (Some df))
       uid df m"

text \<open>
  A table of three users: user 1 viewed article 10, users 2 and 3 viewed article 20.
\<close>

definition df3 :: interactions where
  "df3 = [\<lparr>article_id = 10, title = ''t10'', user_id = 1\<rparr>,
          \<lparr>article_id = 20, title = ''t20'', user_id = 2\<rparr>,
          \<lparr>article_id = 20, title = ''t20'', user_id = 3\<rparr>]"

text \<open>
  A table of four users for the ranking: user 4 shares both articles of user 1; users 2
  and 3 share one, user 3 with two interactions and user 2 with one.
\<close>

definition df_rank :: interactions where
  "df_rank = [\<lparr>article_id = 10, title = ''t10'', user_id = 1\<rparr>,
              \<lparr>article_id = 20, title = ''t20'', user_id = 1\<rparr>,
              \<lparr>article_id = 10, title = ''t10'', user_id = 2\<rparr>,
              \<lparr>article_id = 10, title = ''t10'', user_id = 3\<rparr>,
              \<lparr>article_id = 10, title = ''t10'', user_id = 3\<rparr>,
              \<lparr>article_id = 10, title = ''t10'', user_id = 4\<rparr>,
              \<lparr>article_id = 20, title = ''t20'', user_id = 4\<rparr>]"

text \<open>
  A table in which users 2 and 3 both viewed articles 10 and 20, and user 1 only
  article 10.
\<close>

definition df_dup :: interactions where
  "df_dup = [\<lparr>article_id = 10, title = ''t10'', user_id = 1\<rparr>,
             \<lparr>article_id = 10, title = ''t10'', user_id = 2\<rparr>,
             \<lparr>article_id = 20, title = ''t20'', user_id = 2\<rparr>,
             \<lparr>article_id = 10, title = ''t10'', user_id = 3\<rparr>,
             \<lparr>article_id = 20, title = ''t20'', user_id = 3\<rparr>]"

text \<open>
  A table in which users 2 and 3 viewed articles 20 and 30, user 1 viewed article 10
  once and user 4 viewed it twice.
\<close>

definition df_order :: interactions where
  "df_order = [\<lparr>article_id = 10, title = ''t10'', user_id = 1\<rparr>,
               \<lparr>article_id = 20, title = ''t20'', user_id = 2\<rparr>,
               \<lparr>article_id = 30, title = ''t30'', user_id = 2\<rparr>,
               \<lparr>article_id = 20, title = ''t20'', user_id = 3\<rparr>,
               \<lparr>article_id = 30, title = ''t30'', user_id = 3\<rparr>,
               \<lparr>article_id = 10, title = ''t10'', user_id = 4\<rparr>,
               \<lparr>article_id = 10, title = ''t10'', user_id = 4\<rparr>]"

section \<open>The command-line entry points\<close>

subsection \<open>clean_data.py: clean_data, save_data, main\<close>

text \<open>
  \<open>astype(int)\<close> on the article id column raises when a value is missing.
\<close>

fun astype_int :: "raw_interaction list \<Rightarrow> error + (int \<times> string \<times> string option) list" where
  "astype_int [] = Inr []"
| "astype_int (r # rs) =
     (case raw_article_id r of
        None \<Rightarrow> Inl ValueError
      | Some a \<Rightarrow> (case astype_int rs of
                    Inl e \<Rightarrow> Inl e
                  | Inr rows \<Rightarrow> Inr ((a, raw_title r, raw_email r) # rows)))"

text \<open>
  \<open>drop_duplicates(subset=['article_id'])\<close>: the first row of each article id, missing
  ids counting as one id.
\<close>

fun drop_duplicates :: "int option list \<Rightarrow> article list \<Rightarrow> article list" where
  "drop_duplicates seen [] = []"
| "drop_duplicates seen (a # as) =
     (if art_id a \<in> set seen then drop_duplicates seen as
      else a # drop_duplicates (art_id a # seen) as)"

text \<open>
  The frame that the second \<open>read_csv\<close> of \<open>clean_data\<close> must hold: one with the columns
  \<open>Unnamed: 0\<close> and \<open>article_id\<close>, which both raw files have; the other columns of a row
  are carried along. The processed files have no column \<open>Unnamed: 0\<close>.
\<close>

definition as_articles :: "file_content \<Rightarrow> error + article list" where
  "as_articles frame =
     (case frame of
        Raw_articles articles \<Rightarrow> Inr articles
      | Raw_interactions raw_rows \<Rightarrow>
          Inr (map (\<lambda>r. \<lparr>art_id = raw_article_id r,
                           art_fields = [Some (raw_title r), raw_email r]\<rparr>) raw_rows)
      | _ \<Rightarrow> Inl KeyError)"

text \<open>
  \<open>clean_data\<close>. The first file needs the columns \<open>Unnamed: 0\<close>, \<open>article_id\<close> and
  \<open>email\<close>: only the raw interaction file has all three. The raw article file passes the
  \<open>del\<close> and reaches \<open>astype(int)\<close>, which raises on a missing id, before the column
  \<open>email\<close> is found missing.
\<close>

definition clean_data ::
  "string \<Rightarrow> string \<Rightarrow> world \<Rightarrow> world \<times> (error + (interactions \<times> article list))" where
  "clean_data user_item_path articles_path w =
     (case read_csv user_item_path w of
        Inl e \<Rightarrow> (w, Inl e)
      | Inr (Raw_interactions raw_rows) \<Rightarrow>
          (case astype_int raw_rows of
             Inl e \<Rightarrow> (w, Inl e)
           | Inr rows \<Rightarrow>
               let rows = [(a, t, email). (a, t, Some email) \<leftarrow> rows]
               in case email_mapper (map (\<lambda>(a, t, email). email) rows) w of
                    (w, Inl e) \<Rightarrow> (w, Inl e)
                  | (w, Inr ids) \<Rightarrow>
                      let user_item_df =
                            map (\<lambda>((a, t, email), uid). \<lparr>article_id = a, title = t, user_id = uid\<rparr>)
                              (zip rows ids)
                      in case read_csv articles_path w of
                           Inl e \<Rightarrow> (w, Inl e)
                         | Inr frame \<Rightarrow>
                             (case as_articles frame of
                                Inl e \<Rightarrow> (w, Inl e)
                              | Inr articles \<Rightarrow>
                                  (w, Inr (user_item_df, drop_duplicates [] articles))))
      | Inr (Raw_articles articles) \<Rightarrow>
          (if \<exists>a\<in>set articles. art_id a = None then (w, Inl ValueError) else (w, Inl KeyError))
      | Inr _ \<Rightarrow> (w, Inl KeyError))"

definition output_folder :: string where
  "output_folder = ''./data/processed/''"

text \<open>
  \<open>save_data\<close>: creates the output folder when it is missing, then writes the frame under
  the name of its dataset type, or prints an error for an unknown type.
\<close>

definition save_data :: "file_content \<Rightarrow> string \<Rightarrow> world \<Rightarrow> world" where
  "save_data df dataset_type w =
     (let w = (if output_folder \<notin> dirs w then w\<lparr>dirs := insert output_folder (dirs w)\<rparr> else w)
      in if dataset_type = ''user-item''
         then w\<lparr>files := (files w)(output_folder @ ''user-item-clean.csv'' \<mapsto> df)\<rparr>
         else if dataset_type = ''item''
         then w\<lparr>files := (files w)(output_folder @ ''item-clean.csv'' \<mapsto> df)\<rparr>
         else if dataset_type = ''user-item-matrix''
         then w\<lparr>files := (files w)(output_folder @ ''user-item-matrix.csv'' \<mapsto> df)\<rparr>
         else print (Text (''Error in save_data() function: dataset_type incorrect.\<newline>Function expects''
                @ ''dataset_type to be either 'user-item', 'item' or 'user-item-matrix'.'')) w)"

definition usage_clean_data :: string where
  "usage_clean_data =
     ''Please provide the filepath of the ibm user-item interactions dataset ''
     @ ''as the first argument and the filepath of the articles dataset to ''
     @ ''clean data and save it on disk. \<newline>\<newline>Example: python ''
     @ ''clean_data.py ./data/user-item-interactions.csv ./data/articles_community.csv''"

text \<open>
  \<open>main\<close> of \<open>clean_data.py\<close>, on \<open>sys.argv\<close> (the script name first). The matrix is
  written with \<open>index=False\<close>, that is without its row labels.
\<close>

definition main_clean_data :: "string list \<Rightarrow> world \<Rightarrow> world \<times> (error + unit)" where
  "main_clean_data argv w =
     (if length argv = 3 then
        let user_item_path = argv ! 1;
            articles_path = argv ! 2;
            w = print (Format ''1/3. Loading and cleaning data...\<newline>   DATA FILE: {}\<newline>    DATA FILE: {}''
                         [Str_val user_item_path, Str_val articles_path]) w
        in case clean_data user_item_path articles_path w of
             (w, Inl e) \<Rightarrow> (w, Inl e)
           | (w, Inr (user_item_df, articles_df)) \<Rightarrow>
               let w = print (Text ''...done.'') w;
                   w = print (Text ''2/3. Creating user-item interaction matrix...'') w;
                   user_item_matrix = create_user_item_matrix user_item_df;
                   w = print (Text ''...done.'') w;
                   data_dict =
                     [(''user-item'', Clean_interactions user_item_df),
                      (''item'', Clean_articles articles_df),
                      (''user-item-matrix'',
                         Matrix_csv (columns user_item_matrix) (cells user_item_matrix))];
                   w = print (Text ''3/3. Saving data to disk:'') w;
                   w = fold (\<lambda>(dataset_type, dataset) w.
                               print (Text ''saved.'')
                                 (save_data dataset dataset_type
                                    (print (Format ''   DATA FILE: {}...'' [Str_val dataset_type]) w)))
                         data_dict w
               in (w, Inr ())
      else (print (Text usage_clean_data) w, Inr ()))"

subsection \<open>recommender.py: load_data, main\<close>

text \<open>
  \<open>int(s)\<close> on a \<open>str\<close>. A string is a list of characters with the code points 0 to
  255. The interpreter first turns every white-space character above 126 into a blank
  (in this range U+0085 and U+00A0) and every decimal digit above 126 into its ASCII
  digit (in this range there is none). It then skips the blanks of C's \<open>isspace\<close> (9 to
  13 and 32) at both ends and reads an optional sign and decimal digits, where single
  underscores may stand between digits. Anything else raises \<open>ValueError\<close>, and so does a
  numeral of more digits than \<open>sys.int_info.default_max_str_digits\<close>, the limit of the
  interpreter as shipped.
\<close>

definition to_ascii_space :: "char \<Rightarrow> char" where
  "to_ascii_space c = (if of_char c \<in> {133, 160 :: nat} then CHR '' '' else c)"

definition is_space :: "char \<Rightarrow> bool" where
  "is_space c = (of_char c \<in> {9, 10, 11, 12, 13, 32 :: nat})"

definition strip :: "string \<Rightarrow> string" where
  "strip s = rev (dropWhile is_space (rev (dropWhile is_space s)))"

definition default_max_str_digits :: nat where
  "default_max_str_digits = 4300"

definition digit_of :: "char \<Rightarrow> int option" where
  "digit_of c =
     (if 48 \<le> (of_char c :: nat) \<and> (of_char c :: nat) \<le> 57
      then Some (int (of_char c) - 48) else None)"

fun parse_digits :: "int \<Rightarrow> string \<Rightarrow> int option" where
  "parse_digits acc [] = Some acc"
| "parse_digits acc [c] =
     (case digit_of c of None \<Rightarrow> None | Some v \<Rightarrow> Some (acc * 10 + v))"
| "parse_digits acc (c # d # ds) =
     (if c = CHR ''_''
      then (case digit_of d of None \<Rightarrow> None | Some v \<Rightarrow> parse_digits (acc * 10 + v) ds)
      else (case digit_of c of None \<Rightarrow> None | Some v \<Rightarrow> parse_digits (acc * 10 + v) (d # ds)))"

definition parse_unsigned :: "string \<Rightarrow> int option" where
  "parse_unsigned s =
     (case s of
        [] \<Rightarrow> None
      | c # cs \<Rightarrow> (case digit_of c of None \<Rightarrow> None | Some v \<Rightarrow> parse_digits v cs))"

definition py_int :: "string \<Rightarrow> error + int" where
  "py_int s =
     (case strip (map to_ascii_space s) of
        [] \<Rightarrow> Inl ValueError
      | c # cs \<Rightarrow>
          let (sign, body) =
                (if c = CHR ''-'' then (- 1, cs)
                 else if c = CHR ''+'' then (1, cs)
                 else (1, c # cs))
          in case parse_unsigned body of
               None \<Rightarrow> Inl ValueError
             | Some n \<Rightarrow>
                 if length (filter (\<lambda>d. d \<noteq> CHR ''_'') body) > default_max_str_digits
                 then Inl ValueError
                 else Inr (sign * n))"

text \<open>
  \<open>load_data\<close> reads the three processed files, in this order.
\<close>

definition load_data :: "world \<Rightarrow> error + (file_content \<times> file_content \<times> file_content)" where
  "load_data w =
     (case read_csv ''./data/processed/user-item-clean.csv'' w of
        Inl e \<Rightarrow> Inl e
      | Inr user_item_df \<Rightarrow>
          (case read_csv ''./data/processed/item-clean.csv'' w of
             Inl e \<Rightarrow> Inl e
           | Inr item_df \<Rightarrow>
               (case read_csv ''./data/processed/user-item-matrix.csv'' w of
                  Inl e \<Rightarrow> Inl e
                | Inr user_item_matrix \<Rightarrow> Inr (user_item_df, item_df, user_item_matrix))))"

text \<open>
  What \<open>main\<close> holds in \<open>recommendations\<close>: the list of titles of the popularity path,
  or the pair of lists that \<open>user_user_recs\<close> returns.
\<close>

datatype recommendations = Top_articles "string list" | User_user "int list" "string list"

definition reco_values :: "recommendations \<Rightarrow> pyval list" where
  "reco_values r =
     (case r of
        Top_articles titles \<Rightarrow> map Str_val titles
      | User_user recs rec_names \<Rightarrow> [Ints_val recs, Strs_val rec_names])"

definition usage_recommender :: string where
  "usage_recommender =
     ''Please provide a single user_id to make recommendations to''
     @ ''\<newline>Example: python ''
     @ ''recommender.py 5148 10''"

text \<open>
  \<open>main\<close> of \<open>recommender.py\<close>, on \<open>sys.argv\<close>. Only the interaction table goes on to the
  two paths; a frame without the columns of the clean table raises \<open>KeyError\<close> at the
  first column access. The branch is taken on \<open>is_new_user\<close> as it is written.
\<close>

definition main_recommender ::
  "string list \<Rightarrow> world \<Rightarrow> world \<times> (error + recommendations option)" where
  "main_recommender argv w =
     (if length argv = 3 then
        let user_id_arg = argv ! 1;
            reco_count_arg = argv ! 2
        in case py_int user_id_arg of
             Inl e \<Rightarrow> (w, Inl e)
           | Inr uid \<Rightarrow>
               (case py_int reco_count_arg of
                  Inl e \<Rightarrow> (w, Inl e)
                | Inr reco_count \<Rightarrow>
                    (case load_data w of
                       Inl e \<Rightarrow> (w, Inl e)
                     | Inr (Clean_interactions user_item_df, item_df, user_item_matrix) \<Rightarrow>
                         (case (if is_new_user uid user_item_df
                                then map_sum id Top_articles (get_top_articles user_item_df reco_count)
                                else map_sum id (\<lambda>(recs, rec_names). User_user recs rec_names)
                                       (user_user_recs uid user_item_df reco_count)) of
                            Inl e \<Rightarrow> (w, Inl e)
                          | Inr recommendations \<Rightarrow>
                              let w = print (Format ''Top {} recommendations for user {}:''
                                               [Int_val reco_count, Int_val uid]) w;
                                  w = fold (\<lambda>(idx, reco) w.
                                              print (Format ''{}. {}'' [Int_val (int idx + 1), reco]) w)
                                        (enumerate 0 (reco_values recommendations)) w
                              in (w, Inr (Some recommendations)))
                     | Inr _ \<Rightarrow> (w, Inl KeyError)))
      else (print (Text usage_recommender) w, Inr None))"

text \<open>
  A world after a cleaning run on the small table.
\<close>

definition w_processed :: world where
  "w_processed =
     \<lparr>files = [''./data/processed/user-item-clean.csv'' \<mapsto> Clean_interactions df4,
               ''./data/processed/item-clean.csv'' \<mapsto> Clean_articles [],
               ''./data/processed/user-item-matrix.csv'' \<mapsto> Matrix_csv [10, 20] [[1, 0], [0, 1]]],
      dirs = {''./data/processed/'', encodings_dir},
      stdout = []\<rparr>"


section \<open>Properties\<close>

subsection \<open>email_mapper assigns ids in first-appearance order\<close>

lemma number_from_append: "number_from a (ks @ ls) = number_from a ks @ number_from (a + int (length ks)) ls"
  by (induction ks arbitrary: a) (auto simp: algebra_simps)

lemma map_fst_number_from [simp]: "map fst (number_from a ks) = ks"
  by (induction ks arbitrary: a) auto

lemma map_of_number_from:
  "v \<in> set ks \<Longrightarrow> map_of (number_from a ks) v = Some (a + int (length (takeWhile (\<lambda>k. k \<noteq> v) ks)))"
  by (induction ks arbitrary: a) (auto simp: algebra_simps)

lemma map_of_number_from_None:
  "v \<notin> set ks \<Longrightarrow> map_of (number_from a ks) v = None"
  by (induction ks arbitrary: a) auto

lemma dict_contains_number_from [simp]: "dict_contains (number_from a ks) v = (v \<in> set ks)"
  by (cases "v \<in> set ks") (auto simp: dict_contains_def map_of_number_from map_of_number_from_None)

lemma dict_get_number_from:
  "v \<in> set ks \<Longrightarrow> dict_get (number_from 1 ks) v = Inr (rank_in ks v)"
  by (simp add: dict_get_def map_of_number_from rank_in_def)

lemma dict_set_number_from:
  "v \<notin> set ks \<Longrightarrow> dict_set (number_from 1 ks) v (int (length ks) + 1) = number_from 1 (ks @ [v])"
  by (simp add: dict_set_def number_from_append)

lemma seen_after_prefix: "\<exists>zs. seen_after ks vs = ks @ zs"
  by (induction vs arbitrary: ks) (auto, metis append.assoc)

lemma rank_in_append: "v \<in> set ks \<Longrightarrow> rank_in (ks @ zs) v = rank_in ks v"
  by (simp add: rank_in_def takeWhile_append1)

lemma rank_in_seen_after: "v \<in> set ks \<Longrightarrow> rank_in (seen_after ks vs) v = rank_in ks v"
  using seen_after_prefix [of ks vs] by (auto simp: rank_in_append)

lemma email_loop_closed:
  "email_loop vals (number_from 1 ks, int (length ks) + 1, enc) =
     Inr (number_from 1 (seen_after ks vals), int (length (seen_after ks vals)) + 1,
          enc @ map (rank_in (seen_after ks vals)) vals)"
proof (induction vals arbitrary: ks enc)
  case Nil
  show ?case by simp
next
  case (Cons v vs)
  let ?ks = "if v \<in> set ks then ks else ks @ [v]"
  have v: "v \<in> set ?ks" by simp
  have step: "email_loop (v # vs) (number_from 1 ks, int (length ks) + 1, enc) =
      email_loop vs (number_from 1 ?ks, int (length ?ks) + 1, enc @ [rank_in ?ks v])"
    by (cases "v \<in> set ks") (simp_all add: dict_set_number_from dict_get_number_from)
  show ?case
    unfolding step Cons.IH using rank_in_seen_after [OF v, of vs] by simp
qed


lemma set_seen_after [simp]: "set (seen_after ks vs) = set ks \<union> set vs"
  by (induction vs arbitrary: ks) auto

lemma distinct_seen_after: "distinct ks \<Longrightarrow> distinct (seen_after ks vs)"
  by (induction vs arbitrary: ks) auto

lemma seen_after_append: "seen_after ks (as @ bs) = seen_after (seen_after ks as) bs"
  by (induction as arbitrary: ks) auto

lemma length_seen_after_Nil: "length (seen_after [] vs) = card (set vs)"
  using distinct_card [OF distinct_seen_after [of "[]" vs]] by simp

lemma nth_length_takeWhile_neq: "v \<in> set ks \<Longrightarrow> ks ! length (takeWhile (\<lambda>k. k \<noteq> v) ks) = v"
  by (induction ks) auto

lemma nth_rank_in: "v \<in> set ks \<Longrightarrow> ks ! nat (rank_in ks v - 1) = v"
  by (simp add: rank_in_def nth_length_takeWhile_neq)

lemma rank_in_inj: "v \<in> set ks \<Longrightarrow> v' \<in> set ks \<Longrightarrow> rank_in ks v = rank_in ks v' \<Longrightarrow> v = v'"
proof -
  assume a: "v \<in> set ks" "v' \<in> set ks" and e: "rank_in ks v = rank_in ks v'"
  have "v = ks ! nat (rank_in ks v - 1)" using nth_rank_in [OF a(1)] by (rule sym)
  also have "\<dots> = ks ! nat (rank_in ks v' - 1)" by (simp only: e)
  also have "\<dots> = v'" by (rule nth_rank_in [OF a(2)])
  finally show ?thesis .
qed

lemma rank_in_bounds: "v \<in> set ks \<Longrightarrow> 1 \<le> rank_in ks v \<and> rank_in ks v \<le> int (length ks)"
  by (induction ks) (auto simp: rank_in_def)

lemma rank_in_nth: "distinct ks \<Longrightarrow> i < length ks \<Longrightarrow> rank_in ks (ks ! i) = int i + 1"
proof (induction ks arbitrary: i)
  case Nil
  then show ?case by simp
next
  case (Cons k ks)
  show ?case
  proof (cases i)
    case 0
    then show ?thesis by (simp add: rank_in_def)
  next
    case (Suc j)
    with Cons.prems have "j < length ks" "ks ! j \<noteq> k" "distinct ks" by auto
    with Cons.IH [of j] Suc show ?thesis by (simp add: rank_in_def)
  qed
qed

lemma rank_in_image: "distinct ks \<Longrightarrow> rank_in ks ` set ks = {1..int (length ks)}"
proof (intro equalityI subsetI)
  fix r assume "r \<in> rank_in ks ` set ks"
  then show "r \<in> {1..int (length ks)}" using rank_in_bounds by fastforce
next
  fix r assume d: "distinct ks" and r: "r \<in> {1..int (length ks)}"
  then have i: "nat (r - 1) < length ks" by auto
  from rank_in_nth [OF d i] r have "rank_in ks (ks ! nat (r - 1)) = r" by simp
  with i show "r \<in> rank_in ks ` set ks" by (metis imageI nth_mem)
qed

lemma rank_in_first_occurrence:
  assumes "i < length xs" "xs ! i \<notin> set (take i xs)"
  shows "rank_in (seen_after [] xs) (xs ! i) = int (card (set (take i xs))) + 1"
proof -
  let ?ks = "seen_after [] (take i xs)"
  have xs: "xs = take i xs @ xs ! i # drop (Suc i) xs"
    using assms(1) by (simp add: id_take_nth_drop)
  have "seen_after [] xs = seen_after (?ks @ [xs ! i]) (drop (Suc i) xs)"
    using assms(2) by (subst xs) (simp add: seen_after_append)
  moreover have "takeWhile (\<lambda>k. k \<noteq> xs ! i) (?ks @ [xs ! i]) = ?ks"
    using assms(2) by (subst takeWhile_append2) auto
  then have "rank_in (?ks @ [xs ! i]) (xs ! i) = int (length ?ks) + 1"
    by (simp add: rank_in_def)
  ultimately show ?thesis
    by (simp add: rank_in_seen_after length_seen_after_Nil)
qed

lemma email_loop_start:
  "email_loop xs ([], 1, []) =
     Inr (number_from 1 (seen_after [] xs), int (card (set xs)) + 1,
          map (rank_in (seen_after [] xs)) xs)"
  using email_loop_closed [of xs "[]" "[]"] by (simp add: length_seen_after_Nil)

text \<open>
  C5. When the directory for the pickle exists, \<open>email_mapper\<close> returns a list as long as
  its input; an identifier seen for the first time gets the number of distinct identifiers
  seen before it plus one; two positions get the same id exactly when they hold the same
  identifier; the ids are exactly \<open>1..K\<close> for \<open>K\<close> distinct identifiers; a run in any
  other world gives the same list; and \<open>[a, b, a, c]\<close> gives \<open>[1, 2, 1, 3]\<close>.
\<close>

theorem email_mapper_first_seen_ids:
  assumes "encodings_dir \<in> dirs w"
  shows "\<exists>enc. snd (email_mapper xs w) = Inr enc \<and> length enc = length xs
      \<and> (\<forall>i<length xs. xs ! i \<notin> set (take i xs) \<longrightarrow> enc ! i = int (card (set (take i xs))) + 1)
      \<and> (\<forall>i<length xs. \<forall>j<length xs. (enc ! i = enc ! j) = (xs ! i = xs ! j))
      \<and> set enc = {1..int (card (set xs))}
      \<and> (\<forall>w'. encodings_dir \<in> dirs w' \<longrightarrow> snd (email_mapper xs w') = Inr enc)
      \<and> (\<forall>a b c. xs = [a, b, a, c] \<and> a \<noteq> b \<and> a \<noteq> c \<and> b \<noteq> c \<longrightarrow> enc = [1, 2, 1, 3])"
proof -
  let ?ks = "seen_after [] xs"
  let ?enc = "map (rank_in ?ks) xs"
  have run: "snd (email_mapper xs w') = Inr ?enc" if "encodings_dir \<in> dirs w'" for w'
    using that by (simp add: email_mapper_def email_loop_start)
  have first: "\<forall>i<length xs. xs ! i \<notin> set (take i xs) \<longrightarrow> ?enc ! i = int (card (set (take i xs))) + 1"
    by (simp add: rank_in_first_occurrence)
  have same: "\<forall>i<length xs. \<forall>j<length xs. (?enc ! i = ?enc ! j) = (xs ! i = xs ! j)"
    using rank_in_inj [of _ ?ks] by auto
  have dense: "set ?enc = {1..int (card (set xs))}"
    using rank_in_image [OF distinct_seen_after [of "[]" xs]]
    by (simp add: length_seen_after_Nil)
  have ex: "\<forall>a b c. xs = [a, b, a, c] \<and> a \<noteq> b \<and> a \<noteq> c \<and> b \<noteq> c \<longrightarrow> ?enc = [1, 2, 1, 3]"
    by (auto simp: rank_in_def)
  show ?thesis
    using run [OF assms] run first same dense ex by (intro exI [of _ ?enc]) simp
qed

theorem email_mapper_first_seen_ids_witness:
  "encodings_dir \<in> dirs \<lparr>files = Map.empty, dirs = {encodings_dir}, stdout = []\<rparr>
   \<and> snd (email_mapper [''a'', ''b'', ''a'', ''c'']
            \<lparr>files = Map.empty, dirs = {encodings_dir}, stdout = []\<rparr>) = Inr [1, 2, 1, 3]"
  using email_mapper_first_seen_ids
    [of "\<lparr>files = Map.empty, dirs = {encodings_dir}, stdout = []\<rparr>" "[''a'', ''b'', ''a'', ''c'']"]
  by auto

subsection \<open>The interaction matrix is binary\<close>

lemma set_group_keys [simp]: "set (group_keys xs) = set xs"
  by (simp add: group_keys_def)

lemma distinct_group_keys [simp]: "distinct (group_keys xs)"
  by (simp add: group_keys_def)

lemma pivot_cell_view_count:
  "pivot_cell (map (\<lambda>r. (r, 1)) df) u i =
     (if \<exists>r\<in>set df. user_id r = u \<and> article_id r = i
      then Some (int (length (filter (\<lambda>r. user_id r = u \<and> article_id r = i) df)))
      else None)"
proof -
  have m: "map snd (filter (\<lambda>(r, v). user_id r = u \<and> article_id r = i) (map (\<lambda>r. (r, 1::int)) df))
        = map (\<lambda>r. 1) (filter (\<lambda>r. user_id r = u \<and> article_id r = i) df)"
    by (induction df) auto
  have s: "sum_list (map (\<lambda>r. 1::int) xs) = int (length xs)" for xs :: "interaction list"
    by (induction xs) auto
  show ?thesis
    unfolding pivot_cell_def m Let_def s
    by (auto simp: filter_empty_conv)
qed

lemma binarized_cell:
  "times_one (ge_one (pivot_cell (map (\<lambda>r. (r, 1)) df) u i)) =
     (if \<exists>r\<in>set df. user_id r = u \<and> article_id r = i then 1 else 0)"
proof (cases "\<exists>r\<in>set df. user_id r = u \<and> article_id r = i")
  case True
  then have "filter (\<lambda>r. user_id r = u \<and> article_id r = i) df \<noteq> []"
    by (auto simp: filter_empty_conv)
  then have "1 \<le> int (length (filter (\<lambda>r. user_id r = u \<and> article_id r = i) df))"
    by (cases "filter (\<lambda>r. user_id r = u \<and> article_id r = i) df") auto
  with True show ?thesis
    by (simp add: pivot_cell_view_count ge_one_def times_one_def)
next
  case False
  then show ?thesis
    by (simp add: pivot_cell_view_count ge_one_def times_one_def)
qed

lemma create_user_item_matrix_eq:
  "create_user_item_matrix df =
     \<lparr>row_index = group_keys (map user_id df), columns = group_keys (map article_id df),
      cells = map (\<lambda>u. map (\<lambda>i. if \<exists>r\<in>set df. user_id r = u \<and> article_id r = i then 1 else 0)
                     (group_keys (map article_id df)))
                  (group_keys (map user_id df))\<rparr>"
  by (simp add: create_user_item_matrix_def pivot_table_sum_def Let_def comp_def binarized_cell)

lemma loc_cell_create:
  assumes "u \<in> user_id ` set df" "i \<in> article_id ` set df"
  shows "loc_cell (create_user_item_matrix df) u i =
           Inr (if \<exists>r\<in>set df. user_id r = u \<and> article_id r = i then 1 else 0)"
  using assms
  by (simp add: create_user_item_matrix_eq loc_cell_def loc_row_def map_of_zip_map)

text \<open>
  C4. The rows and columns of the matrix are the distinct user ids and article ids of the
  table; the cell of every (user, article) pair of a table row is 1; the cell of every
  pair of a realized user and a realized article that no row holds is 0; and every cell
  is 0 or 1.
\<close>

theorem create_user_item_matrix_binary:
  "set (row_index (create_user_item_matrix df)) = user_id ` set df
   \<and> set (columns (create_user_item_matrix df)) = article_id ` set df
   \<and> distinct (row_index (create_user_item_matrix df))
   \<and> distinct (columns (create_user_item_matrix df))
   \<and> (\<forall>r\<in>set df. loc_cell (create_user_item_matrix df) (user_id r) (article_id r) = Inr 1)
   \<and> (\<forall>u\<in>user_id ` set df. \<forall>i\<in>article_id ` set df.
         \<not> (\<exists>r\<in>set df. user_id r = u \<and> article_id r = i)
           \<longrightarrow> loc_cell (create_user_item_matrix df) u i = Inr 0)
   \<and> (\<forall>row\<in>set (cells (create_user_item_matrix df)). \<forall>v\<in>set row. v = 0 \<or> v = 1)"
proof -
  have a: "\<forall>r\<in>set df. loc_cell (create_user_item_matrix df) (user_id r) (article_id r) = Inr 1"
  proof
    fix r assume r: "r \<in> set df"
    then have "\<exists>r'\<in>set df. user_id r' = user_id r \<and> article_id r' = article_id r" by blast
    with r loc_cell_create [of "user_id r" df "article_id r"]
    show "loc_cell (create_user_item_matrix df) (user_id r) (article_id r) = Inr 1" by simp
  qed
  have b: "\<forall>u\<in>user_id ` set df. \<forall>i\<in>article_id ` set df.
         \<not> (\<exists>r\<in>set df. user_id r = u \<and> article_id r = i)
           \<longrightarrow> loc_cell (create_user_item_matrix df) u i = Inr 0"
    using loc_cell_create by simp
  have c: "\<forall>row\<in>set (cells (create_user_item_matrix df)). \<forall>v\<in>set row. v = 0 \<or> v = 1"
    by (auto simp: create_user_item_matrix_eq)
  have d: "set (row_index (create_user_item_matrix df)) = user_id ` set df"
      "set (columns (create_user_item_matrix df)) = article_id ` set df"
      "distinct (row_index (create_user_item_matrix df))"
      "distinct (columns (create_user_item_matrix df))"
    by (simp_all add: create_user_item_matrix_eq)
  from a b c d show ?thesis by blast
qed

theorem create_user_item_matrix_binary_witness:
  "loc_cell (create_user_item_matrix df4) 1 10 = Inr 1
   \<and> loc_cell (create_user_item_matrix df4) 2 20 = Inr 1
   \<and> loc_cell (create_user_item_matrix df4) 1 20 = Inr 0
   \<and> loc_cell (create_user_item_matrix df4) 2 10 = Inr 0"
proof -
  note m = create_user_item_matrix_binary [of df4]
  from m have one: "\<forall>r\<in>set df4. loc_cell (create_user_item_matrix df4) (user_id r) (article_id r) = Inr 1"
    by blast
  from m have zero: "\<forall>u\<in>user_id ` set df4. \<forall>i\<in>article_id ` set df4.
         \<not> (\<exists>r\<in>set df4. user_id r = u \<and> article_id r = i)
           \<longrightarrow> loc_cell (create_user_item_matrix df4) u i = Inr 0"
    by blast
  from one have "loc_cell (create_user_item_matrix df4) 1 10 = Inr 1"
    by (simp add: df4_def)
  moreover from one have "loc_cell (create_user_item_matrix df4) 2 20 = Inr 1"
    by (simp add: df4_def)
  moreover from zero have "loc_cell (create_user_item_matrix df4) 1 20 = Inr 0"
    by (simp add: df4_def)
  moreover from zero have "loc_cell (create_user_item_matrix df4) 2 10 = Inr 0"
    by (simp add: df4_def)
  ultimately show ?thesis by blast
qed

subsection \<open>email_mapper and the persisted mapping\<close>

lemma remdups_snoc: "remdups (ys @ [x]) = filter (\<lambda>y. y \<noteq> x) (remdups ys) @ [x]"
  by (induction ys) auto

lemma unique_Cons: "unique (x # xs) = x # filter (\<lambda>y. y \<noteq> x) (unique xs)"
  by (simp add: unique_def remdups_snoc rev_filter)

lemma length_unique: "length (unique xs) = card (set xs)"
  by (simp add: unique_def length_remdups_card_conv)

lemma unique_Nil [simp]: "unique [] = []"
  by (simp add: unique_def)

lemma seen_after_unique_gen: "seen_after ks xs = ks @ filter (\<lambda>x. x \<notin> set ks) (unique xs)"
proof (induction xs arbitrary: ks)
  case Nil
  show ?case by simp
next
  case (Cons x xs)
  show ?case
  proof (cases "x \<in> set ks")
    case True
    then have "filter (\<lambda>y. y \<notin> set ks) (filter (\<lambda>y. y \<noteq> x) (unique xs))
             = filter (\<lambda>y. y \<notin> set ks) (unique xs)"
      by (auto intro: filter_cong)
    with True show ?thesis by (simp add: Cons.IH unique_Cons)
  next
    case False
    have "filter (\<lambda>y. y \<notin> set (ks @ [x])) (unique xs)
        = filter (\<lambda>y. y \<notin> set ks) (filter (\<lambda>y. y \<noteq> x) (unique xs))"
      by (auto intro: filter_cong)
    with False show ?thesis by (simp add: Cons.IH unique_Cons)
  qed
qed

lemma seen_after_unique: "seen_after [] xs = unique xs"
  by (simp add: seen_after_unique_gen)

lemma number_from_zip: "number_from a ks = zip ks [a..a + int (length ks) - 1]"
proof (induction ks arbitrary: a)
  case Nil
  show ?case by simp
next
  case (Cons k ks)
  have "[a..a + int (length (k # ks)) - 1] = a # [a + 1..(a + 1) + int (length ks) - 1]"
    by (subst upto_rec1) (simp_all add: algebra_simps)
  then show ?case by (simp add: Cons.IH)
qed

lemma rank_in_seen_card:
  assumes "x \<in> set xs"
  shows "rank_in (seen_after [] xs) x = 1 + int (card (set (takeWhile (\<lambda>y. y \<noteq> x) xs)))"
proof -
  let ?i = "length (takeWhile (\<lambda>y. y \<noteq> x) xs)"
  have i: "?i < length xs"
    using assms by (induction xs) auto
  have x: "xs ! ?i = x"
    using assms by (rule nth_length_takeWhile_neq)
  have t: "take ?i xs = takeWhile (\<lambda>y. y \<noteq> x) xs"
    by (rule takeWhile_eq_take [symmetric])
  have "x \<notin> set (takeWhile (\<lambda>y. y \<noteq> x) xs)"
    by (auto dest: set_takeWhileD)
  with rank_in_first_occurrence [OF i] x t show ?thesis by simp
qed

text \<open>
  C8, as the code has it. \<open>email_mapper\<close> never reads \<open>encodings.pkl\<close>. Whatever a previous
  run left there, a run on \<open>xs\<close> gives each identifier the number of distinct identifiers
  before its first occurrence in \<open>xs\<close> plus one, and leaves the file holding the mapping of
  this run alone: the distinct identifiers of \<open>xs\<close> in order of first appearance, numbered
  from 1, each with the id the run returned for it.
\<close>

theorem email_mapper_ignores_persisted_mapping:
  assumes "encodings_dir \<in> dirs w"
  shows "email_mapper xs (w\<lparr>files := (files w)(encodings_pkl := previous)\<rparr>)
           = (w\<lparr>files := (files w)(encodings_pkl \<mapsto>
                   Pickle (zip (unique xs) [1..int (card (set xs))]))\<rparr>,
              Inr (map (\<lambda>x. 1 + int (card (set (takeWhile (\<lambda>y. y \<noteq> x) xs)))) xs))
         \<and> (\<forall>x\<in>set xs. dict_get (zip (unique xs) [1..int (card (set xs))]) x
               = Inr (1 + int (card (set (takeWhile (\<lambda>y. y \<noteq> x) xs)))))"
proof -
  have d: "number_from 1 (seen_after [] xs) = zip (unique xs) [1..int (card (set xs))]"
    using number_from_zip [of 1 "unique xs"]
    by (simp add: seen_after_unique length_unique)
  have e: "map (rank_in (seen_after [] xs)) xs
         = map (\<lambda>x. 1 + int (card (set (takeWhile (\<lambda>y. y \<noteq> x) xs)))) xs"
    by (simp add: rank_in_seen_card)
  have g: "\<forall>x\<in>set xs. dict_get (zip (unique xs) [1..int (card (set xs))]) x
               = Inr (1 + int (card (set (takeWhile (\<lambda>y. y \<noteq> x) xs))))"
    using dict_get_number_from [of _ "seen_after [] xs"]
    by (simp add: d rank_in_seen_card)
  have "email_mapper xs (w\<lparr>files := (files w)(encodings_pkl := previous)\<rparr>)
           = (w\<lparr>files := (files w)(encodings_pkl \<mapsto>
                   Pickle (zip (unique xs) [1..int (card (set xs))]))\<rparr>,
              Inr (map (\<lambda>x. 1 + int (card (set (takeWhile (\<lambda>y. y \<noteq> x) xs)))) xs))"
    using assms by (simp add: email_mapper_def email_loop_start d e)
  with g show ?thesis by blast
qed

theorem email_mapper_ignores_persisted_mapping_witness:
  "encodings_dir \<in> dirs w_empty
   \<and> email_mapper [''b'', ''a'']
        (w_empty\<lparr>files := (files w_empty)(encodings_pkl := Some (Pickle [(''a'', 1), (''b'', 2)]))\<rparr>)
     = (w_empty\<lparr>files := (files w_empty)(encodings_pkl \<mapsto> Pickle [(''b'', 1), (''a'', 2)])\<rparr>,
        Inr [1, 2])
   \<and> dict_get [(''b'', 1), (''a'', 2 :: int)] ''a'' = Inr 2"
proof -
  have d: "encodings_dir \<in> dirs w_empty" by (simp add: w_empty_def)
  have u: "zip (unique [''b'', ''a'']) [1..int (card (set [''b'', ''a'']))] = [(''b'', 1), (''a'', 2)]"
    by (simp add: unique_def upto.simps)
  have c: "map (\<lambda>x. 1 + int (card (set (takeWhile (\<lambda>y. y \<noteq> x) [''b'', ''a''])))) [''b'', ''a''] = [1, 2]"
    by simp
  from email_mapper_ignores_persisted_mapping
         [OF d, of "[''b'', ''a'']" "Some (Pickle [(''a'', 1), (''b'', 2)])"]
  show ?thesis unfolding u c using d by simp
qed

text \<open>
  C8 as stated fails: a first run on \<open>[a, b]\<close> persists \<open>a \<mapsto> 1, b \<mapsto> 2\<close>; a second run on
  \<open>[b, a]\<close>, in the world the first run left, gives \<open>b\<close> the id 1 and \<open>a\<close> the id 2, and
  replaces the persisted mapping.
\<close>

theorem email_mapper_reuse_counterexample:
  "files (fst (email_mapper [''a'', ''b''] w_empty)) encodings_pkl = Some (Pickle [(''a'', 1), (''b'', 2)])
   \<and> snd (email_mapper [''a'', ''b''] w_empty) = Inr [1, 2]
   \<and> snd (email_mapper [''b'', ''a''] (fst (email_mapper [''a'', ''b''] w_empty))) = Inr [1, 2]
   \<and> files (fst (email_mapper [''b'', ''a''] (fst (email_mapper [''a'', ''b''] w_empty)))) encodings_pkl
       = Some (Pickle [(''b'', 1), (''a'', 2)])"
  by (simp add: email_mapper_def w_empty_def dict_contains_def dict_set_def dict_get_def)

subsection \<open>The warm path never returns\<close>

lemma user_user_recs_TypeError: "user_user_recs uid df m = Inl TypeError"
  by (simp add: user_user_recs_def user_user_recs_body_def get_user_articles_call_def)

text \<open>
  C10. Every call of \<open>user_user_recs\<close> raises \<open>TypeError\<close>: each of its calls of
  \<open>get_user_articles\<close>, \<open>get_top_sorted_users\<close> and \<open>get_article_names\<close> passes fewer
  arguments than the callee has parameters, and the first of them is the first statement
  of the body.
\<close>

theorem user_user_recs_always_raises:
  "user_user_recs uid df m = Inl TypeError
   \<and> get_user_articles_call (Some uid) None = Inl TypeError
   \<and> get_top_sorted_users_call (Some uid) None None = Inl TypeError
   \<and> get_article_names_call (Some ids) None = Inl TypeError"
  by (simp add: user_user_recs_TypeError get_user_articles_call_def
      get_top_sorted_users_call_def get_article_names_call_def)

subsection \<open>Similarity is taken against row 1\<close>

lemma df3_matrix:
  "create_user_item_matrix df3 =
     \<lparr>row_index = [1, 2, 3], columns = [10, 20], cells = [[1, 0], [0, 1], [0, 1]]\<rparr>"
  by (simp add: create_user_item_matrix_eq df3_def group_keys_def)

text \<open>
  C1 on the code: for target user 2 of the three-user table, user 3 has the same row as
  user 2 (dot product 1) and user 1 shares nothing with user 2 (dot product 0), yet the
  ranker gives user 1 the similarity 1 and user 3 the similarity 0: the scores are the
  dot products with the row of user 1.
\<close>

theorem get_top_sorted_users_fixed_row:
  "get_top_sorted_users 2 df3 (create_user_item_matrix df3) =
     Inr [\<lparr>neighbor_id = 1, similarity = 1, num_interactions = Some 1\<rparr>,
          \<lparr>neighbor_id = 3, similarity = 0, num_interactions = Some 1\<rparr>]
   \<and> loc_row (create_user_item_matrix df3) 2 = Inr [0, 1]
   \<and> loc_row (create_user_item_matrix df3) 3 = Inr [0, 1]
   \<and> loc_row (create_user_item_matrix df3) 1 = Inr [1, 0]
   \<and> dot [0, 1] [0, 1] = 1 \<and> dot [1, 0] [0, 1] = 0"
  unfolding df3_matrix
  by (simp add: get_top_sorted_users_def loc_row_def dot_def groupby_count_def
      group_keys_def df3_def sort_values_def neighbor_before_def count_ge_def)

subsection \<open>The order of the neighbours\<close>

lemma set_insert_sorted [simp]: "set (insert_sorted p x ys) = insert x (set ys)"
  by (induction ys) auto

lemma sorted_insert_sorted:
  assumes total: "\<And>a b. p a b \<or> p b a" and trans: "\<And>a b c. p a b \<Longrightarrow> p b c \<Longrightarrow> p a c"
  shows "sorted_wrt p ys \<Longrightarrow> sorted_wrt p (insert_sorted p x ys)"
proof (induction ys)
  case Nil
  then show ?case by simp
next
  case (Cons y ys)
  show ?case
  proof (cases "p x y")
    case True
    with Cons.prems trans show ?thesis by auto
  next
    case False
    with total have "p y x" by blast
    with False Cons show ?thesis by auto
  qed
qed

lemma sorted_sort_values:
  assumes total: "\<And>a b. p a b \<or> p b a" and trans: "\<And>a b c. p a b \<Longrightarrow> p b c \<Longrightarrow> p a c"
  shows "sorted_wrt p (sort_values p xs)"
  unfolding sort_values_def
  by (induction xs) (simp_all add: sorted_insert_sorted [OF total trans])

lemma set_sort_values [simp]: "set (sort_values p xs) = set xs"
  unfolding sort_values_def by (induction xs) simp_all

lemma count_ge_total: "count_ge a b \<or> count_ge b a"
  by (auto simp: count_ge_def split: option.splits)

lemma count_ge_trans: "count_ge a b \<Longrightarrow> count_ge b c \<Longrightarrow> count_ge a c"
  by (auto simp: count_ge_def split: option.splits)

lemma neighbor_before_total: "neighbor_before a b \<or> neighbor_before b a"
  using count_ge_total [of "num_interactions a" "num_interactions b"]
  by (auto simp: neighbor_before_def)

lemma neighbor_before_trans:
  "neighbor_before a b \<Longrightarrow> neighbor_before b c \<Longrightarrow> neighbor_before a c"
  using count_ge_trans [of "num_interactions a" "num_interactions b" "num_interactions c"]
  by (auto simp: neighbor_before_def)

text \<open>
  Whenever the ranker returns, its rows are in descending order of the score in their
  \<open>similarity\<close> field, rows of equal score in descending order of interaction count (a
  missing count last), and no row has the target user's id. The score is the one line
  153 computes, against the row of user 1.
\<close>

lemma get_top_sorted_users_sorted_by_score:
  assumes "get_top_sorted_users uid df user_item = Inr ns"
  shows "sorted_wrt neighbor_before ns
    \<and> (\<forall>i j. i < j \<and> j < length ns \<longrightarrow>
          similarity (ns ! i) > similarity (ns ! j)
          \<or> (similarity (ns ! i) = similarity (ns ! j)
              \<and> count_ge (num_interactions (ns ! i)) (num_interactions (ns ! j))))
    \<and> uid \<notin> neighbor_id ` set ns
    \<and> map neighbor_id (sort_values neighbor_before
          [\<lparr>neighbor_id = 101, similarity = 5, num_interactions = Some 10\<rparr>,
           \<lparr>neighbor_id = 102, similarity = 5, num_interactions = Some 20\<rparr>,
           \<lparr>neighbor_id = 103, similarity = 3, num_interactions = Some 50\<rparr>]) = [102, 101, 103]"
proof -
  from assms obtain rows where
    ns: "ns = filter (\<lambda>n. neighbor_id n \<noteq> uid) (sort_values neighbor_before rows)"
    by (auto simp: get_top_sorted_users_def Let_def split: sum.splits)
  have "sorted_wrt neighbor_before (sort_values neighbor_before rows)"
    by (rule sorted_sort_values [OF neighbor_before_total neighbor_before_trans])
  then have s: "sorted_wrt neighbor_before ns"
    unfolding ns by (rule sorted_wrt_filter)
  then have n: "\<forall>i j. i < j \<and> j < length ns \<longrightarrow>
          similarity (ns ! i) > similarity (ns ! j)
          \<or> (similarity (ns ! i) = similarity (ns ! j)
              \<and> count_ge (num_interactions (ns ! i)) (num_interactions (ns ! j)))"
    by (simp add: sorted_wrt_iff_nth_less neighbor_before_def)
  have u: "uid \<notin> neighbor_id ` set ns"
    unfolding ns by auto
  have e: "map neighbor_id (sort_values neighbor_before
          [\<lparr>neighbor_id = 101, similarity = 5, num_interactions = Some 10\<rparr>,
           \<lparr>neighbor_id = 102, similarity = 5, num_interactions = Some 20\<rparr>,
           \<lparr>neighbor_id = 103, similarity = 3, num_interactions = Some 50\<rparr>]) = [102, 101, 103]"
    by (simp add: sort_values_def neighbor_before_def count_ge_def)
  from s n u e show ?thesis by blast
qed

lemma df_rank_matrix:
  "create_user_item_matrix df_rank =
     \<lparr>row_index = [1, 2, 3, 4], columns = [10, 20], cells = [[1, 1], [1, 0], [1, 0], [1, 1]]\<rparr>"
  by (simp add: create_user_item_matrix_eq df_rank_def group_keys_def)

lemma get_top_sorted_users_df_rank:
  "get_top_sorted_users 1 df_rank (create_user_item_matrix df_rank) =
     Inr [\<lparr>neighbor_id = 4, similarity = 2, num_interactions = Some 2\<rparr>,
          \<lparr>neighbor_id = 3, similarity = 1, num_interactions = Some 2\<rparr>,
          \<lparr>neighbor_id = 2, similarity = 1, num_interactions = Some 1\<rparr>]"
  unfolding df_rank_matrix
  by (simp add: get_top_sorted_users_def loc_row_def dot_def groupby_count_def
      group_keys_def df_rank_def sort_values_def neighbor_before_def count_ge_def)

lemma df_order_matrix:
  "create_user_item_matrix df_order =
     \<lparr>row_index = [1, 2, 3, 4], columns = [10, 20, 30],
      cells = [[1, 0, 0], [0, 1, 1], [0, 1, 1], [1, 0, 0]]\<rparr>"
  by (simp add: create_user_item_matrix_eq df_order_def group_keys_def)

text \<open>
  C6 on the code: for target user 2 of the table \<open>df_order\<close> the ranker returns users
  4, 1, 3 in this order. Users 4 and 1 share no article with user 2 (dot product 0) and
  user 3 shares both (dot product 2), so the output is not in descending order of
  similarity to the target: the one neighbour that is similar to the target comes last.
  The target itself is left out.
\<close>

theorem get_top_sorted_users_not_by_target:
  "get_top_sorted_users 2 df_order (create_user_item_matrix df_order) =
     Inr [\<lparr>neighbor_id = 4, similarity = 1, num_interactions = Some 2\<rparr>,
          \<lparr>neighbor_id = 1, similarity = 1, num_interactions = Some 1\<rparr>,
          \<lparr>neighbor_id = 3, similarity = 0, num_interactions = Some 2\<rparr>]
   \<and> loc_row (create_user_item_matrix df_order) 2 = Inr [0, 1, 1]
   \<and> loc_row (create_user_item_matrix df_order) 4 = Inr [1, 0, 0]
   \<and> loc_row (create_user_item_matrix df_order) 1 = Inr [1, 0, 0]
   \<and> loc_row (create_user_item_matrix df_order) 3 = Inr [0, 1, 1]
   \<and> dot [1, 0, 0] [0, 1, 1] = 0 \<and> dot [0, 1, 1] [0, 1, 1] = 2"
  unfolding df_order_matrix
  by (simp add: get_top_sorted_users_def loc_row_def dot_def groupby_count_def
      group_keys_def df_order_def sort_values_def neighbor_before_def count_ge_def)

subsection \<open>The recommendations of the loop\<close>

lemma recs_loop_subset:
  "recs_loop articles_of names_of seen av m ns (recs, names) = Inr (recs', names')
     \<Longrightarrow> set recs' \<subseteq> set recs \<union> (fst ` set av - set seen)"
proof (induction ns arbitrary: recs names)
  case Nil
  then show ?case by auto
next
  case (Cons n ns)
  from Cons.prems obtain ids ns0 batch_names where
    a: "articles_of n = Inr (ids, ns0)" and
    b: "names_of (map fst (filter (\<lambda>(a, c). a \<in> set (filter (\<lambda>item. item \<notin> set seen) ids)) av))
          = Inr batch_names"
    by (auto simp: Let_def split: sum.splits prod.splits)
  let ?batch = "map fst (filter (\<lambda>(a, c). a \<in> set (filter (\<lambda>item. item \<notin> set seen) ids)) av)"
  have batch: "set ?batch \<subseteq> fst ` set av - set seen" by auto
  show ?case
  proof (cases "int (length (recs @ ?batch)) \<ge> m")
    case True
    with Cons.prems a b have "recs' = recs @ ?batch" by (simp add: Let_def)
    with batch show ?thesis by auto
  next
    case False
    with Cons.prems a b have
      "recs_loop articles_of names_of seen av m ns (recs @ ?batch, names @ batch_names) = Inr (recs', names')"
      by (simp add: Let_def)
    from Cons.IH [OF this] batch show ?thesis by auto
  qed
qed

lemma set_slice_to: "set (slice_to m xs) \<subseteq> set xs"
  by (auto simp: slice_to_def dest: in_set_takeD)

lemma fst_groupby_count: "fst ` set (groupby_count key df) = key ` set df"
  by (auto simp: groupby_count_def image_image)

text \<open>
  Whatever the three calls do, when the body of \<open>user_user_recs\<close> returns, the call for
  the target user returned a list of seen articles, no returned article id is in that
  list, and every returned id is an article id of the table.
\<close>

lemma user_user_recs_body_excludes_seen:
  assumes "user_user_recs_body articles_of neighbors_of names_of uid df m = Inr (recs, rec_names)"
  shows "\<exists>seen names. articles_of uid = Inr (seen, names)
           \<and> set recs \<inter> set seen = {} \<and> set recs \<subseteq> article_id ` set df"
proof -
  let ?av = "sort_values (\<lambda>a b. snd a \<ge> snd b) (groupby_count article_id df)"
  from assms obtain seen names where s: "articles_of uid = Inr (seen, names)"
    by (cases "articles_of uid") (auto simp: user_user_recs_body_def)
  from assms s obtain nbrs where n: "neighbors_of uid = Inr nbrs"
    by (cases "neighbors_of uid") (auto simp: user_user_recs_body_def Let_def)
  from assms s n obtain all_recs all_names where
    l: "recs_loop articles_of names_of seen ?av m (map neighbor_id nbrs) ([], []) = Inr (all_recs, all_names)"
    by (cases "recs_loop articles_of names_of seen ?av m (map neighbor_id nbrs) ([], [])")
       (auto simp: user_user_recs_body_def Let_def)
  from assms s n l have r: "recs = slice_to m all_recs"
    by (simp add: user_user_recs_body_def Let_def)
  from recs_loop_subset [OF l] have "set all_recs \<subseteq> article_id ` set df - set seen"
    by (simp add: fst_groupby_count)
  with set_slice_to [of m all_recs] r have "set recs \<subseteq> article_id ` set df - set seen"
    by blast
  with s show ?thesis by blast
qed

text \<open>
  C3 on the code: for user 1 of the table \<open>df_dup\<close> and \<open>m = 2\<close> the warm path raises
  at its first statement and returns no list of item ids.
\<close>

theorem user_user_recs_no_list_failing_input:
  "user_user_recs 1 df_dup 2 = Inl TypeError"
  by (rule user_user_recs_TypeError)

subsection \<open>The cap on the recommendations\<close>

text \<open>
  What the body does about the limit, whatever the three calls do: for \<open>m \<ge> 0\<close> it
  returns at most \<open>m\<close> ids, and when it returns fewer than \<open>m\<close>, every unseen article
  of every neighbour that is an article of the table is among them.
\<close>

lemma length_slice_to: "0 \<le> m \<Longrightarrow> int (length (slice_to m xs)) \<le> m"
  by (simp add: slice_to_def)

lemma slice_to_short: "int (length xs) \<le> m \<Longrightarrow> slice_to m xs = xs"
  by (simp add: slice_to_def)

lemma recs_loop_exhausted:
  "recs_loop articles_of names_of seen av m ns (recs, names) = Inr (recs', names')
     \<Longrightarrow> int (length recs') < m
     \<Longrightarrow> set recs \<subseteq> set recs'
         \<and> (\<forall>n\<in>set ns. \<forall>ids nm. articles_of n = Inr (ids, nm)
               \<longrightarrow> (set ids \<inter> fst ` set av) - set seen \<subseteq> set recs')"
proof (induction ns arbitrary: recs names)
  case Nil
  then show ?case by auto
next
  case (Cons n ns)
  from Cons.prems(1) obtain ids ns0 batch_names where
    a: "articles_of n = Inr (ids, ns0)" and
    b: "names_of (map fst (filter (\<lambda>(a, c). a \<in> set (filter (\<lambda>item. item \<notin> set seen) ids)) av))
          = Inr batch_names"
    by (auto simp: Let_def split: sum.splits prod.splits)
  let ?batch = "map fst (filter (\<lambda>(a, c). a \<in> set (filter (\<lambda>item. item \<notin> set seen) ids)) av)"
  have batch: "(set ids \<inter> fst ` set av) - set seen \<subseteq> set ?batch" by force
  show ?case
  proof (cases "int (length (recs @ ?batch)) \<ge> m")
    case True
    with Cons.prems a b have "recs' = recs @ ?batch" by (simp add: Let_def)
    with True Cons.prems(2) show ?thesis by simp
  next
    case False
    with Cons.prems a b have
      l: "recs_loop articles_of names_of seen av m ns (recs @ ?batch, names @ batch_names) = Inr (recs', names')"
      by (simp add: Let_def)
    from Cons.IH [OF l Cons.prems(2)] have
      sub: "set (recs @ ?batch) \<subseteq> set recs'" and
      rest: "\<forall>n\<in>set ns. \<forall>ids nm. articles_of n = Inr (ids, nm)
               \<longrightarrow> (set ids \<inter> fst ` set av) - set seen \<subseteq> set recs'"
      by blast+
    from sub batch have "(set ids \<inter> fst ` set av) - set seen \<subseteq> set recs'" by auto
    with a rest sub show ?thesis by auto
  qed
qed

lemma user_user_recs_body_cap:
  assumes "user_user_recs_body articles_of neighbors_of names_of uid df m = Inr (recs, rec_names)"
    and "0 \<le> m"
  shows "int (length recs) \<le> m"
proof -
  from assms(1) obtain all_recs where "recs = slice_to m all_recs"
    by (auto simp: user_user_recs_body_def Let_def split: sum.splits prod.splits)
  with assms(2) show ?thesis by (simp add: length_slice_to)
qed

lemma user_user_recs_with_args_df4_one:
  "user_user_recs_with_args (create_user_item_matrix df4) 1 df4 1 = Inr ([20], [''t20''])"
  by code_simp

lemma user_user_recs_body_short_is_exhaustive:
  assumes "user_user_recs_body articles_of neighbors_of names_of uid df m = Inr (recs, rec_names)"
    and "int (length recs) < m"
  shows "\<exists>seen names nbrs. articles_of uid = Inr (seen, names) \<and> neighbors_of uid = Inr nbrs
           \<and> (\<forall>n\<in>neighbor_id ` set nbrs. \<forall>ids nm. articles_of n = Inr (ids, nm)
                 \<longrightarrow> (set ids \<inter> article_id ` set df) - set seen \<subseteq> set recs)"
proof -
  let ?av = "sort_values (\<lambda>a b. snd a \<ge> snd b) (groupby_count article_id df)"
  from assms(1) obtain seen names where s: "articles_of uid = Inr (seen, names)"
    by (cases "articles_of uid") (auto simp: user_user_recs_body_def)
  from assms(1) s obtain nbrs where n: "neighbors_of uid = Inr nbrs"
    by (cases "neighbors_of uid") (auto simp: user_user_recs_body_def Let_def)
  from assms(1) s n obtain all_recs all_names where
    l: "recs_loop articles_of names_of seen ?av m (map neighbor_id nbrs) ([], []) = Inr (all_recs, all_names)"
    by (cases "recs_loop articles_of names_of seen ?av m (map neighbor_id nbrs) ([], [])")
       (auto simp: user_user_recs_body_def Let_def)
  from assms(1) s n l have r: "recs = slice_to m all_recs"
    by (simp add: user_user_recs_body_def Let_def)
  with assms(2) have "recs = all_recs"
    by (auto simp: slice_to_def split: if_splits)
  with assms(2) recs_loop_exhausted [OF l] have
    "\<forall>n\<in>set (map neighbor_id nbrs). \<forall>ids nm. articles_of n = Inr (ids, nm)
        \<longrightarrow> (set ids \<inter> fst ` set ?av) - set seen \<subseteq> set recs"
    by blast
  then have "\<forall>n\<in>neighbor_id ` set nbrs. \<forall>ids nm. articles_of n = Inr (ids, nm)
                 \<longrightarrow> (set ids \<inter> article_id ` set df) - set seen \<subseteq> set recs"
    by (simp add: fst_groupby_count)
  with s n show ?thesis by blast
qed

text \<open>
  C7 on the code: for user 1 of the small table and \<open>m = 1\<close> the warm path returns no
  list at all, where the body with every call given its arguments returns one id.
\<close>

theorem user_user_recs_cap_failing_input:
  "user_user_recs 1 df4 1 = Inl TypeError
   \<and> user_user_recs_with_args (create_user_item_matrix df4) 1 df4 1 = Inr ([20], [''t20''])"
  using user_user_recs_TypeError [of 1 df4 1] user_user_recs_with_args_df4_one by simp

subsection \<open>The branch of main on is_new_user\<close>

lemma py_int_7: "py_int ''7'' = Inr 7" by code_simp
lemma py_int_3: "py_int ''3'' = Inr 3" by code_simp
lemma py_int_1: "py_int ''1'' = Inr 1" by code_simp
lemma py_int_abc: "py_int ''abc'' = Inl ValueError" by code_simp

lemma py_int_examples:
  "py_int [CHR 0x1C, CHR ''3''] = Inl ValueError"
  "py_int [CHR 0xA0, CHR ''3''] = Inr 3"
  "py_int '' -1_000 '' = Inr (- 1000)"
  "py_int ''1__0'' = Inl ValueError"
  "py_int ''007'' = Inr 7"
  "py_int ''+'' = Inl ValueError"
  by code_simp+

lemma get_top_articles_df4: "get_top_articles df4 3 = Inr [''t10'', ''t20'']" by code_simp

lemma load_data_w_processed:
  "load_data w_processed =
     Inr (Clean_interactions df4, Clean_articles [], Matrix_csv [10, 20] [[1, 0], [0, 1]])"
  by (simp add: load_data_def read_csv_def w_processed_def)

lemma is_new_user_iff: "is_new_user uid df = (uid \<in> user_id ` set df)"
  by (simp add: is_new_user_def)

text \<open>
  C2 on the code: \<open>is_new_user\<close> is true exactly for the ids that occur in the table.
  User 7 does not occur in the small table, and \<open>main\<close> sends it to \<open>user_user_recs\<close>,
  which raises; user 1 occurs, and \<open>main\<close> answers with the most viewed titles.
\<close>

theorem is_new_user_inverted:
  "is_new_user 7 df4 = False
   \<and> 7 \<notin> user_id ` set df4
   \<and> main_recommender [''recommender.py'', ''7'', ''3''] w_processed = (w_processed, Inl TypeError)
   \<and> is_new_user 1 df4 = True
   \<and> 1 \<in> user_id ` set df4
   \<and> snd (main_recommender [''recommender.py'', ''1'', ''3''] w_processed)
       = Inr (Some (Top_articles [''t10'', ''t20'']))
   \<and> get_top_articles df4 3 = Inr [''t10'', ''t20'']"
proof -
  have a: "is_new_user 7 df4 = False" "7 \<notin> user_id ` set df4"
          "is_new_user 1 df4 = True" "1 \<in> user_id ` set df4"
    by (simp_all add: is_new_user_def df4_def)
  have b: "main_recommender [''recommender.py'', ''7'', ''3''] w_processed = (w_processed, Inl TypeError)"
    by (simp add: main_recommender_def py_int_7 py_int_3 load_data_w_processed a
        user_user_recs_TypeError)
  have c: "snd (main_recommender [''recommender.py'', ''1'', ''3''] w_processed)
       = Inr (Some (Top_articles [''t10'', ''t20'']))"
    by (simp add: main_recommender_def py_int_1 py_int_3 load_data_w_processed a
        get_top_articles_df4 Let_def)
  from a b c get_top_articles_df4 show ?thesis by blast
qed

subsection \<open>Wrong arguments on the command line\<close>

lemma py_int_error: "py_int s = Inl e \<Longrightarrow> e = ValueError"
  by (auto simp: py_int_def Let_def split: list.splits option.splits if_splits prod.splits)

text \<open>
  C9, as the code has it. With any number of arguments other than two, each entry point
  prints its usage text and does nothing else: files and directories are as before, and
  \<open>main\<close> returns. The type of the arguments is not checked: with two arguments, when
  \<open>int\<close> raises \<open>ValueError\<close> on the first or on the second, the recommendation entry
  point ends in that \<open>ValueError\<close> with the world unchanged, nothing printed and nothing
  read.
\<close>

theorem main_wrong_arguments:
  "(length argv \<noteq> 3 \<longrightarrow>
      main_recommender argv w = (w\<lparr>stdout := stdout w @ [Text usage_recommender]\<rparr>, Inr None)
      \<and> main_clean_data argv w = (w\<lparr>stdout := stdout w @ [Text usage_clean_data]\<rparr>, Inr ()))
   \<and> (length argv = 3 \<and> (py_int (argv ! 1) = Inl ValueError \<or> py_int (argv ! 2) = Inl ValueError) \<longrightarrow>
      main_recommender argv w = (w, Inl ValueError))"
  by (auto simp: main_recommender_def main_clean_data_def print_def Let_def
      split: sum.splits dest: py_int_error)

theorem main_wrong_arguments_witness:
  "main_recommender [''recommender.py'', ''5148''] w_processed
       = (w_processed\<lparr>stdout := stdout w_processed @ [Text usage_recommender]\<rparr>, Inr None)
   \<and> main_clean_data [''clean_data.py'', ''5148''] w_processed
       = (w_processed\<lparr>stdout := stdout w_processed @ [Text usage_clean_data]\<rparr>, Inr ())
   \<and> py_int ([''recommender.py'', ''7'', ''abc''] ! 2) = Inl ValueError
   \<and> main_recommender [''recommender.py'', ''7'', ''abc''] w_processed = (w_processed, Inl ValueError)"
  using main_wrong_arguments [of "[''recommender.py'', ''5148'']" w_processed]
        main_wrong_arguments [of "[''clean_data.py'', ''5148'']" w_processed]
        main_wrong_arguments [of "[''recommender.py'', ''7'', ''abc'']" w_processed]
        py_int_abc
  by simp

text \<open>
  C9 as stated fails: \<open>python recommender.py abc 10\<close> has the right number of arguments
  and a wrong type; it prints no usage text and ends in an uncaught \<open>ValueError\<close>.
\<close>

theorem main_wrong_type_counterexample:
  "main_recommender [''recommender.py'', ''abc'', ''10''] w_processed = (w_processed, Inl ValueError)
   \<and> stdout (fst (main_recommender [''recommender.py'', ''abc'', ''10''] w_processed)) = []"
  by (simp add: main_recommender_def py_int_abc w_processed_def)

end
